theory Spec2Isabelle
  imports Complex_Main
begin

section \<open>Python values, exceptions and the collaborators of the facade\<close>

text \<open>
  The facade \<open>CityData\<close> of \<open>GeoDash/data/city_manager.py\<close> passes Python objects
  through: query arguments go to a repository, what the repository returns goes back
  to the caller. A value is kept up to Python's \<open>==\<close>, which is what a dictionary key
  is compared with: the numbers (\<open>int\<close>, \<open>float\<close>, \<open>bool\<close>) compare by their
  mathematical value, so one constructor holds them (a finite float is a rational);
  an instance of a class without \<open>__eq__\<close> compares by identity.
\<close>

datatype pyval =
    PNone
  | PNum rat
  | PStr string
  | PObj nat
  | PList "pyval list"
  | PDict "(pyval \<times> pyval) list"

text \<open>An instance of \<open>Exception\<close> (or of a subclass), with the name of its class.\<close>

datatype exn = Exn string

text \<open>
  Modelled from the spec: the result of \<open>SchemaManager.get_table_info\<close>, a class that is
  not among the sources; a dictionary with the keys \<open>columns\<close> and \<open>row_count\<close>, the
  latter an integer. Both \<open>info['row_count']\<close> and \<open>info.get('row_count', 0)\<close> read
  the field.
\<close>

record table_info =
  columns :: "string list"
  row_count :: int

text \<open>
  The facade is written against classes and functions of other modules
  (\<open>DatabaseManager\<close>, \<open>SchemaManager\<close>, \<open>CityDataImporter\<close>, \<open>download_city_data\<close>,
  the three repositories, \<open>os.environ\<close>). Each is a parameter here: an arbitrary
  function on the state \<open>'w\<close> of everything outside the facade (database, file system,
  network), which returns normally (\<open>Inr\<close>) or raises (\<open>Inl\<close>).
\<close>

record 'w collaborators =
  os_environ :: "string \<Rightarrow> string option"
  get_data_directory :: "'w \<Rightarrow> (exn + string) \<times> 'w"
  new_components :: "string \<Rightarrow> bool \<Rightarrow> 'w \<Rightarrow> (exn + unit) \<times> 'w"
  schema_ensure_schema_exists :: "'w \<Rightarrow> (exn + unit) \<times> 'w"
  schema_get_table_info :: "'w \<Rightarrow> (exn + table_info) \<times> 'w"
  importer_import_from_csv :: "string option \<Rightarrow> int \<Rightarrow> bool \<Rightarrow> 'w \<Rightarrow> (exn + int) \<times> 'w"
  download_city_data :: "bool \<Rightarrow> 'w \<Rightarrow> (exn + string) \<times> 'w"
  db_delete_from_city_data :: "'w \<Rightarrow> (exn + unit) \<times> 'w"
  db_close :: "'w \<Rightarrow> (exn + unit) \<times> 'w"
  city_search :: "pyval \<Rightarrow> pyval \<Rightarrow> pyval \<Rightarrow> pyval \<Rightarrow> pyval \<Rightarrow> pyval \<Rightarrow> 'w \<Rightarrow> (exn + pyval) \<times> 'w"
  city_get_by_id :: "pyval \<Rightarrow> 'w \<Rightarrow> (exn + pyval) \<times> 'w"
  geo_find_by_coordinates :: "pyval \<Rightarrow> pyval \<Rightarrow> pyval \<Rightarrow> 'w \<Rightarrow> (exn + pyval) \<times> 'w"
  region_get_countries :: "'w \<Rightarrow> (exn + pyval) \<times> 'w"
  region_get_states :: "pyval \<Rightarrow> 'w \<Rightarrow> (exn + pyval) \<times> 'w"
  region_get_cities_in_state :: "pyval \<Rightarrow> pyval \<Rightarrow> 'w \<Rightarrow> (exn + pyval) \<times> 'w"

text \<open>
  A call-count spy: every call of a collaborator, and every entry into
  \<open>import_city_data\<close>, is written to a log with its arguments.
\<close>

datatype event =
    E_get_data_directory
  | E_new_components string bool
  | E_ensure_schema_exists
  | E_get_table_info
  | E_import_city_data "string option" int
  | E_import_from_csv "string option" int bool
  | E_download_city_data bool
  | E_delete_from_city_data
  | E_db_close
  | E_search pyval pyval pyval pyval pyval pyval
  | E_get_by_id pyval
  | E_find_by_coordinates pyval pyval pyval
  | E_get_countries
  | E_get_states pyval
  | E_get_cities_in_state pyval pyval

section \<open>The cache of \<open>functools.lru_cache\<close>\<close>

text \<open>
  The key of a call is \<open>_make_key(args, kwds, typed=False)\<close>: the positional arguments,
  then, when there are keyword arguments, a marker object and the keyword items in the
  order of the call. The marker is an object of the module, never an argument. The
  shortcut of \<open>_make_key\<close> for a single \<open>int\<close> or \<open>str\<close> argument never applies to a
  method: the first argument is the instance.
\<close>

datatype keyelem = KVal pyval | KwdMark

type_synonym cache_key = "keyelem list"

text \<open>
  The state of one decorated function: the dictionary \<open>cache\<close> and the circular doubly
  linked list behind \<open>root\<close> are one list of (key, result), from \<open>root[NEXT]\<close>, the least
  recently used link, to \<open>root[PREV]\<close>, the most recently used; with the flag \<open>full\<close>
  and the two counters.
\<close>

record lru =
  entries :: "(cache_key \<times> pyval) list"
  full :: bool
  hits :: nat
  misses :: nat

datatype cached_method = SearchCities | GetCity | GetCountries | GetStates | GetCitiesInState

text \<open>Lists and dictionaries have no hash: a key that holds one raises \<open>TypeError\<close>.\<close>

fun hashable :: "pyval \<Rightarrow> bool" where
  "hashable (PList xs) = False"
| "hashable (PDict kvs) = False"
| "hashable v = True"

fun kwd_items :: "(string \<times> pyval) list \<Rightarrow> keyelem list" where
  "kwd_items [] = []"
| "kwd_items ((name, v) # kwds) = KVal (PStr name) # KVal v # kwd_items kwds"

definition make_key :: "pyval list \<Rightarrow> (string \<times> pyval) list \<Rightarrow> exn + cache_key" where
  "make_key args kwds =
     (if list_all hashable args \<and> list_all hashable (map snd kwds)
      then Inr (map KVal args @ (if kwds = [] then [] else KwdMark # kwd_items kwds))
      else Inl (Exn ''TypeError''))"

text \<open>
  What the wrapper does with a computed result (the second \<open>with lock\<close> block): nothing
  when the key is there already; when the cache is full, the oldest link leaves and the
  new one becomes the most recent; otherwise the new link is put at the most recent end
  and \<open>full\<close> is set from the new size.
\<close>

definition lru_store :: "nat \<Rightarrow> cache_key \<Rightarrow> pyval \<Rightarrow> lru \<Rightarrow> lru" where
  "lru_store maxsize key result c =
     (if key \<in> fst ` set (entries c) then c
      else if full c then c\<lparr>entries := tl (entries c) @ [(key, result)]\<rparr>
      else (let es = entries c @ [(key, result)]
            in c\<lparr>entries := es, full := (length es \<ge> maxsize)\<rparr>))"

text \<open>
  \<open>_lru_cache_wrapper\<close>, for \<open>maxsize = 0\<close> (no caching) and for a bounded size. The
  user function runs on the state \<open>'s\<close>; it is called on a miss only, and a call that
  raises stores nothing.
\<close>

definition lru_cache_wrapper ::
  "nat \<Rightarrow> (pyval list \<Rightarrow> (string \<times> pyval) list \<Rightarrow> 's \<Rightarrow> (exn + pyval) \<times> 's) \<Rightarrow>
   pyval list \<Rightarrow> (string \<times> pyval) list \<Rightarrow> lru \<Rightarrow> 's \<Rightarrow> (exn + pyval) \<times> lru \<times> 's" where
  "lru_cache_wrapper maxsize user_function args kwds c s =
     (if maxsize = 0 then
        (let (r, s1) = user_function args kwds s
         in (r, c\<lparr>misses := misses c + 1\<rparr>, s1))
      else
        (case make_key args kwds of
           Inl e \<Rightarrow> (Inl e, c, s)
         | Inr key \<Rightarrow>
             (case map_of (entries c) key of
                Some result \<Rightarrow>
                  (Inr result,
                   c\<lparr>entries := filter (\<lambda>e. fst e \<noteq> key) (entries c) @ [(key, result)],
                     hits := hits c + 1\<rparr>,
                   s)
              | None \<Rightarrow>
                  (let c1 = c\<lparr>misses := misses c + 1\<rparr>;
                       (r, s1) = user_function args kwds s
                   in case r of
                        Inl e \<Rightarrow> (Inl e, c1, s1)
                      | Inr result \<Rightarrow> (Inr result, lru_store maxsize key result c1, s1)))))"

text \<open>
  Binding the arguments of a call to the parameters of a \<open>def\<close>: each parameter has a
  name and, when the \<open>def\<close> gives one, a default. The values come back in the order of
  the parameters; a call that does not fit raises \<open>TypeError\<close>.
\<close>

type_synonym params = "(string \<times> pyval option) list"

fun bind_positional :: "params \<Rightarrow> pyval list \<Rightarrow> exn + (pyval list \<times> params)" where
  "bind_positional ps [] = Inr ([], ps)"
| "bind_positional [] (a # as) = Inl (Exn ''TypeError'')"
| "bind_positional (p # ps) (a # as) =
     (case bind_positional ps as of
        Inl e \<Rightarrow> Inl e
      | Inr (vs, rest) \<Rightarrow> Inr (a # vs, rest))"

fun bind_keywords :: "params \<Rightarrow> (string \<times> pyval) list \<Rightarrow> exn + pyval list" where
  "bind_keywords [] kwds = Inr []"
| "bind_keywords ((name, dflt) # ps) kwds =
     (case (case map_of kwds name of Some v \<Rightarrow> Some v | None \<Rightarrow> dflt) of
        None \<Rightarrow> Inl (Exn ''TypeError'')
      | Some v \<Rightarrow>
          (case bind_keywords ps kwds of
             Inl e \<Rightarrow> Inl e
           | Inr vs \<Rightarrow> Inr (v # vs)))"

definition bind_arguments :: "params \<Rightarrow> pyval list \<Rightarrow> (string \<times> pyval) list \<Rightarrow> exn + pyval list" where
  "bind_arguments ps args kwds =
     (case bind_positional ps args of
        Inl e \<Rightarrow> Inl e
      | Inr (vs, rest) \<Rightarrow>
          (if list_ex (\<lambda>kw. fst kw \<notin> set (map fst rest)) kwds then Inl (Exn ''TypeError'')
           else
             (case bind_keywords rest kwds of
                Inl e \<Rightarrow> Inl e
              | Inr ws \<Rightarrow> Inr (vs @ ws))))"

section \<open>The state of the process and of a facade\<close>

record 'w process =
  world :: 'w
  trace :: "event list"
  next_id :: nat
  caches :: "cached_method \<Rightarrow> lru"

text \<open>
  An instance of \<open>CityData\<close>: its identity, and the two attributes \<open>close\<close> asks for
  with \<open>hasattr\<close> (\<open>None\<close>: the attribute is not set).
\<close>

record facade =
  self_id :: nat
  db_manager :: "unit option"
  persistent :: "bool option"

definition invoke :: "event \<Rightarrow> ('w \<Rightarrow> (exn + 'a) \<times> 'w) \<Rightarrow> 'w process \<Rightarrow> (exn + 'a) \<times> 'w process" where
  "invoke ev f p =
     (let (r, w') = f (world p)
      in (r, p\<lparr>world := w', trace := trace p @ [ev]\<rparr>))"

section \<open>Ingestion\<close>

definition get_table_info :: "'w collaborators \<Rightarrow> facade \<Rightarrow> 'w process \<Rightarrow> (exn + table_info) \<times> 'w process" where
  "get_table_info env self p = invoke E_get_table_info (schema_get_table_info env) p"

text \<open>The body of the outer \<open>try\<close> of \<open>import_city_data\<close> (lines 99 to 107).\<close>

definition import_city_data_try ::
  "'w collaborators \<Rightarrow> facade \<Rightarrow> string option \<Rightarrow> int \<Rightarrow> 'w process \<Rightarrow> (exn + bool) \<times> 'w process" where
  "import_city_data_try env self csv_path batch_size p =
     (case get_table_info env self p of
        (Inl e, p1) \<Rightarrow> (Inl e, p1)
      | (Inr info, p1) \<Rightarrow>
          (let count = row_count info in
           if count > 0 then (Inr True, p1)
           else
             (case invoke (E_import_from_csv csv_path batch_size True)
                     (importer_import_from_csv env csv_path batch_size True) p1 of
                (Inl e, p2) \<Rightarrow> (Inl e, p2)
              | (Inr imported, p2) \<Rightarrow> (Inr (imported > 0), p2))))"

text \<open>The body of the inner \<open>try\<close> (lines 113 to 123), entered when \<open>csv_path is None\<close>.\<close>

definition import_city_data_retry ::
  "'w collaborators \<Rightarrow> facade \<Rightarrow> int \<Rightarrow> 'w process \<Rightarrow> (exn + bool) \<times> 'w process" where
  "import_city_data_retry env self batch_size p =
     (case invoke (E_download_city_data True) (download_city_data env True) p of
        (Inl e, p1) \<Rightarrow> (Inl e, p1)
      | (Inr csv_path, p1) \<Rightarrow>
          (case invoke E_delete_from_city_data (db_delete_from_city_data env) p1 of
             (Inl e, p2) \<Rightarrow> (Inl e, p2)
           | (Inr u, p2) \<Rightarrow>
               (case invoke (E_import_from_csv (Some csv_path) batch_size False)
                       (importer_import_from_csv env (Some csv_path) batch_size False) p2 of
                  (Inl e, p3) \<Rightarrow> (Inl e, p3)
                | (Inr imported, p3) \<Rightarrow> (Inr (imported > 0), p3))))"

definition import_city_data ::
  "'w collaborators \<Rightarrow> facade \<Rightarrow> string option \<Rightarrow> int \<Rightarrow> 'w process \<Rightarrow> (exn + bool) \<times> 'w process" where
  "import_city_data env self csv_path batch_size p =
     (case import_city_data_try env self csv_path batch_size
             (p\<lparr>trace := trace p @ [E_import_city_data csv_path batch_size]\<rparr>) of
        (Inr b, p1) \<Rightarrow> (Inr b, p1)
      | (Inl e, p1) \<Rightarrow>
          (if csv_path = None then
             (case import_city_data_retry env self batch_size p1 of
                (Inr b, p2) \<Rightarrow> (Inr b, p2)
              | (Inl download_err, p2) \<Rightarrow> (Inr False, p2))
           else (Inr False, p1)))"

section \<open>Construction\<close>

definition path_join :: "string \<Rightarrow> string \<Rightarrow> string" where
  "path_join a b = (if a = [] then b else if last a = CHR ''/'' then a @ b else a @ ''/'' @ b)"

text \<open>The body of the \<open>try\<close> of \<open>__init__\<close> (lines 72 to 75).\<close>

definition init_check_content :: "'w collaborators \<Rightarrow> facade \<Rightarrow> 'w process \<Rightarrow> (exn + unit) \<times> 'w process" where
  "init_check_content env self p =
     (case get_table_info env self p of
        (Inl e, p1) \<Rightarrow> (Inl e, p1)
      | (Inr info, p1) \<Rightarrow>
          (let count = row_count info in
           if count = 0 then
             (case import_city_data env self None 5000 p1 of
                (Inl e, p2) \<Rightarrow> (Inl e, p2)
              | (Inr b, p2) \<Rightarrow> (Inr (), p2))
           else (Inr (), p1)))"

text \<open>The \<open>try\<close> with its handler, which tries the import anyway (lines 71 to 82).\<close>

definition init_bootstrap :: "'w collaborators \<Rightarrow> facade \<Rightarrow> 'w process \<Rightarrow> (exn + unit) \<times> 'w process" where
  "init_bootstrap env self p =
     (case init_check_content env self p of
        (Inr u, p1) \<Rightarrow> (Inr (), p1)
      | (Inl e, p1) \<Rightarrow>
          (case import_city_data env self None 5000 p1 of
             (Inl import_err, p2) \<Rightarrow> (Inr (), p2)
           | (Inr b, p2) \<Rightarrow> (Inr (), p2)))"

text \<open>Lines 44 to 46: without a URI, the SQLite file of the data directory.\<close>

definition default_db_uri :: "'w collaborators \<Rightarrow> string option \<Rightarrow> 'w process \<Rightarrow> (exn + string) \<times> 'w process" where
  "default_db_uri env db_uri p =
     (case db_uri of
        Some uri \<Rightarrow> (Inr uri, p)
      | None \<Rightarrow>
          (case invoke E_get_data_directory (get_data_directory env) p of
             (Inl e, p1) \<Rightarrow> (Inl e, p1)
           | (Inr data_dir, p1) \<Rightarrow> (Inr (''sqlite:///'' @ path_join data_dir ''cities.db''), p1)))"

text \<open>
  \<open>__init__\<close>. The new object takes the next identity. Lines 52 to 60 build the
  managers and the repositories: one collaborator call here. An exception outside the
  \<open>try\<close> leaves the constructor, and no facade is returned.
\<close>

definition init :: "'w collaborators \<Rightarrow> string option \<Rightarrow> bool \<Rightarrow> 'w process \<Rightarrow> (exn + facade) \<times> 'w process" where
  "init env db_uri persistent_flag p =
     (let self = \<lparr>self_id = next_id p, db_manager = None, persistent = None\<rparr>
      in case default_db_uri env db_uri (p\<lparr>next_id := Suc (next_id p)\<rparr>) of
           (Inl e, p1) \<Rightarrow> (Inl e, p1)
         | (Inr uri, p1) \<Rightarrow>
             (let worker_id = (case os_environ env ''GUNICORN_WORKER_ID'' of
                                 None \<Rightarrow> ''standalone'' | Some v \<Rightarrow> v)
              in case invoke (E_new_components uri persistent_flag)
                        (new_components env uri persistent_flag) p1 of
                   (Inl e, p2) \<Rightarrow> (Inl e, p2)
                 | (Inr u, p2) \<Rightarrow>
                     (let self1 = self\<lparr>db_manager := Some ()\<rparr>;
                          is_worker = (worker_id \<noteq> ''standalone'')
                      in if \<not> is_worker then
                           (case invoke E_ensure_schema_exists (schema_ensure_schema_exists env) p2 of
                              (Inl e, p3) \<Rightarrow> (Inl e, p3)
                            | (Inr u, p3) \<Rightarrow>
                                (let (r, p4) = init_bootstrap env self1 p3
                                 in (Inr (self1\<lparr>persistent := Some persistent_flag\<rparr>), p4)))
                         else (Inr (self1\<lparr>persistent := Some persistent_flag\<rparr>), p2))))"

section \<open>Read operations\<close>

text \<open>
  A decorated method: the wrapper receives the instance as its first positional
  argument, so the instance is part of the key; the cache belongs to the function of the
  class and is shared by all instances.
\<close>

definition cached_call ::
  "cached_method \<Rightarrow> nat \<Rightarrow>
   (pyval list \<Rightarrow> (string \<times> pyval) list \<Rightarrow> 'w process \<Rightarrow> (exn + pyval) \<times> 'w process) \<Rightarrow>
   facade \<Rightarrow> pyval list \<Rightarrow> (string \<times> pyval) list \<Rightarrow> 'w process \<Rightarrow> (exn + pyval) \<times> 'w process" where
  "cached_call m maxsize user_function self args kwds p =
     (let (r, c, p1) = lru_cache_wrapper maxsize user_function (PObj (self_id self) # args) kwds (caches p m) p
      in (r, p1\<lparr>caches := (caches p1)(m := c)\<rparr>))"

definition search_cities_body ::
  "'w collaborators \<Rightarrow> pyval list \<Rightarrow> (string \<times> pyval) list \<Rightarrow> 'w process \<Rightarrow> (exn + pyval) \<times> 'w process" where
  "search_cities_body env args kwds p =
     (case bind_arguments
             [(''self'', None), (''query'', None), (''limit'', Some (PNum 10)),
              (''country'', Some PNone), (''user_lat'', Some PNone), (''user_lng'', Some PNone),
              (''user_country'', Some PNone)] args kwds of
        Inl e \<Rightarrow> (Inl e, p)
      | Inr vs \<Rightarrow>
          (case vs of
             [self, query, limit, country, user_lat, user_lng, user_country] \<Rightarrow>
               invoke (E_search query limit country user_lat user_lng user_country)
                 (city_search env query limit country user_lat user_lng user_country) p
           | _ \<Rightarrow> (Inl (Exn ''TypeError''), p)))"

definition search_cities ::
  "'w collaborators \<Rightarrow> facade \<Rightarrow> pyval list \<Rightarrow> (string \<times> pyval) list \<Rightarrow> 'w process \<Rightarrow> (exn + pyval) \<times> 'w process" where
  "search_cities env self args kwds p = cached_call SearchCities 5000 (search_cities_body env) self args kwds p"

definition get_city_body ::
  "'w collaborators \<Rightarrow> pyval list \<Rightarrow> (string \<times> pyval) list \<Rightarrow> 'w process \<Rightarrow> (exn + pyval) \<times> 'w process" where
  "get_city_body env args kwds p =
     (case bind_arguments [(''self'', None), (''city_id'', None)] args kwds of
        Inl e \<Rightarrow> (Inl e, p)
      | Inr vs \<Rightarrow>
          (case vs of
             [self, city_id] \<Rightarrow> invoke (E_get_by_id city_id) (city_get_by_id env city_id) p
           | _ \<Rightarrow> (Inl (Exn ''TypeError''), p)))"

definition get_city ::
  "'w collaborators \<Rightarrow> facade \<Rightarrow> pyval list \<Rightarrow> (string \<times> pyval) list \<Rightarrow> 'w process \<Rightarrow> (exn + pyval) \<times> 'w process" where
  "get_city env self args kwds p = cached_call GetCity 1000 (get_city_body env) self args kwds p"

definition get_cities_by_coordinates ::
  "'w collaborators \<Rightarrow> facade \<Rightarrow> pyval list \<Rightarrow> (string \<times> pyval) list \<Rightarrow> 'w process \<Rightarrow> (exn + pyval) \<times> 'w process" where
  "get_cities_by_coordinates env self args kwds p =
     (case bind_arguments
             [(''self'', None), (''lat'', None), (''lng'', None), (''radius_km'', Some (PNum 10))]
             (PObj (self_id self) # args) kwds of
        Inl e \<Rightarrow> (Inl e, p)
      | Inr vs \<Rightarrow>
          (case vs of
             [self, lat, lng, radius_km] \<Rightarrow>
               invoke (E_find_by_coordinates lat lng radius_km)
                 (geo_find_by_coordinates env lat lng radius_km) p
           | _ \<Rightarrow> (Inl (Exn ''TypeError''), p)))"

definition get_countries_body ::
  "'w collaborators \<Rightarrow> pyval list \<Rightarrow> (string \<times> pyval) list \<Rightarrow> 'w process \<Rightarrow> (exn + pyval) \<times> 'w process" where
  "get_countries_body env args kwds p =
     (case bind_arguments [(''self'', None)] args kwds of
        Inl e \<Rightarrow> (Inl e, p)
      | Inr vs \<Rightarrow>
          (case vs of
             [self] \<Rightarrow> invoke E_get_countries (region_get_countries env) p
           | _ \<Rightarrow> (Inl (Exn ''TypeError''), p)))"

definition get_countries ::
  "'w collaborators \<Rightarrow> facade \<Rightarrow> pyval list \<Rightarrow> (string \<times> pyval) list \<Rightarrow> 'w process \<Rightarrow> (exn + pyval) \<times> 'w process" where
  "get_countries env self args kwds p = cached_call GetCountries 1 (get_countries_body env) self args kwds p"

definition get_states_body ::
  "'w collaborators \<Rightarrow> pyval list \<Rightarrow> (string \<times> pyval) list \<Rightarrow> 'w process \<Rightarrow> (exn + pyval) \<times> 'w process" where
  "get_states_body env args kwds p =
     (case bind_arguments [(''self'', None), (''country'', None)] args kwds of
        Inl e \<Rightarrow> (Inl e, p)
      | Inr vs \<Rightarrow>
          (case vs of
             [self, country] \<Rightarrow> invoke (E_get_states country) (region_get_states env country) p
           | _ \<Rightarrow> (Inl (Exn ''TypeError''), p)))"

definition get_states ::
  "'w collaborators \<Rightarrow> facade \<Rightarrow> pyval list \<Rightarrow> (string \<times> pyval) list \<Rightarrow> 'w process \<Rightarrow> (exn + pyval) \<times> 'w process" where
  "get_states env self args kwds p = cached_call GetStates 100 (get_states_body env) self args kwds p"

definition get_cities_in_state_body ::
  "'w collaborators \<Rightarrow> pyval list \<Rightarrow> (string \<times> pyval) list \<Rightarrow> 'w process \<Rightarrow> (exn + pyval) \<times> 'w process" where
  "get_cities_in_state_body env args kwds p =
     (case bind_arguments [(''self'', None), (''state'', None), (''country'', None)] args kwds of
        Inl e \<Rightarrow> (Inl e, p)
      | Inr vs \<Rightarrow>
          (case vs of
             [self, state, country] \<Rightarrow>
               invoke (E_get_cities_in_state state country) (region_get_cities_in_state env state country) p
           | _ \<Rightarrow> (Inl (Exn ''TypeError''), p)))"

definition get_cities_in_state ::
  "'w collaborators \<Rightarrow> facade \<Rightarrow> pyval list \<Rightarrow> (string \<times> pyval) list \<Rightarrow> 'w process \<Rightarrow> (exn + pyval) \<times> 'w process" where
  "get_cities_in_state env self args kwds p =
     cached_call GetCitiesInState 500 (get_cities_in_state_body env) self args kwds p"

section \<open>Release\<close>

definition close :: "'w collaborators \<Rightarrow> facade \<Rightarrow> 'w process \<Rightarrow> (exn + unit) \<times> 'w process" where
  "close env self p =
     (if db_manager self \<noteq> None then
        (if persistent self = None \<or> persistent self = Some False
         then invoke E_db_close (db_close env) p
         else (Inr (), p))
      else (Inr (), p))"




section \<open>The calls of the interface, and runs of them\<close>

text \<open>The five decorated methods, by name.\<close>

definition call_cached ::
  "'w collaborators \<Rightarrow> cached_method \<Rightarrow> facade \<Rightarrow> pyval list \<Rightarrow> (string \<times> pyval) list \<Rightarrow>
   'w process \<Rightarrow> (exn + pyval) \<times> 'w process" where
  "call_cached env m self args kwds p =
     (case m of
        SearchCities \<Rightarrow> search_cities env self args kwds p
      | GetCity \<Rightarrow> get_city env self args kwds p
      | GetCountries \<Rightarrow> get_countries env self args kwds p
      | GetStates \<Rightarrow> get_states env self args kwds p
      | GetCitiesInState \<Rightarrow> get_cities_in_state env self args kwds p)"

definition body_of ::
  "'w collaborators \<Rightarrow> cached_method \<Rightarrow> pyval list \<Rightarrow> (string \<times> pyval) list \<Rightarrow>
   'w process \<Rightarrow> (exn + pyval) \<times> 'w process" where
  "body_of env m =
     (case m of
        SearchCities \<Rightarrow> search_cities_body env
      | GetCity \<Rightarrow> get_city_body env
      | GetCountries \<Rightarrow> get_countries_body env
      | GetStates \<Rightarrow> get_states_body env
      | GetCitiesInState \<Rightarrow> get_cities_in_state_body env)"

text \<open>The key a call of a decorated method is stored under.\<close>

definition key_of :: "facade \<Rightarrow> pyval list \<Rightarrow> (string \<times> pyval) list \<Rightarrow> exn + cache_key" where
  "key_of self args kwds = make_key (PObj (self_id self) # args) kwds"

definition cached_keys :: "'w process \<Rightarrow> cached_method \<Rightarrow> cache_key set" where
  "cached_keys p m = fst ` set (entries (caches p m))"


datatype api_call =
    Init "string option" bool
  | Import_city_data facade "string option" int
  | Cached cached_method facade "pyval list" "(string \<times> pyval) list"
  | Get_cities_by_coordinates facade "pyval list" "(string \<times> pyval) list"
  | Get_table_info facade
  | Close facade

definition step :: "'w collaborators \<Rightarrow> api_call \<Rightarrow> 'w process \<Rightarrow> 'w process" where
  "step env c p =
     (case c of
        Init db_uri persistent_flag \<Rightarrow> snd (init env db_uri persistent_flag p)
      | Import_city_data self csv_path batch_size \<Rightarrow> snd (import_city_data env self csv_path batch_size p)
      | Cached m self args kwds \<Rightarrow> snd (call_cached env m self args kwds p)
      | Get_cities_by_coordinates self args kwds \<Rightarrow> snd (get_cities_by_coordinates env self args kwds p)
      | Get_table_info self \<Rightarrow> snd (get_table_info env self p)
      | Close self \<Rightarrow> snd (close env self p))"

text \<open>
  The use of a cache that a call makes: a call of a decorated method that returns a
  result (from the cache or from the repository) uses its key.
\<close>

definition use_of :: "'w collaborators \<Rightarrow> api_call \<Rightarrow> 'w process \<Rightarrow> (cached_method \<times> cache_key) list" where
  "use_of env c p =
     (case c of
        Cached m self args kwds \<Rightarrow>
          (case (fst (call_cached env m self args kwds p), key_of self args kwds) of
             (Inr v, Inr k) \<Rightarrow> [(m, k)]
           | _ \<Rightarrow> [])
      | _ \<Rightarrow> [])"

text \<open>A run: the calls one after the other, with the log of the uses of the caches.\<close>

fun run ::
  "'w collaborators \<Rightarrow> api_call list \<Rightarrow> 'w process \<times> (cached_method \<times> cache_key) list \<Rightarrow>
   'w process \<times> (cached_method \<times> cache_key) list" where
  "run env [] s = s"
| "run env (c # cs) s = run env cs (step env c (fst s), snd s @ use_of env c (fst s))"

definition uses :: "cached_method \<Rightarrow> (cached_method \<times> cache_key) list \<Rightarrow> cache_key list" where
  "uses m ulog = map snd (filter (\<lambda>u. fst u = m) ulog)"

text \<open>
  The time of the last use of a key in a log of uses: its last position, counted from
  1; 0 for a key never used.
\<close>

definition last_use :: "cache_key list \<Rightarrow> cache_key \<Rightarrow> nat" where
  "last_use ks k = length (dropWhile (\<lambda>x. x \<noteq> k) (rev ks))"

definition empty_lru :: lru where
  "empty_lru = \<lparr>entries = [], full = False, hits = 0, misses = 0\<rparr>"

text \<open>A process at its start: nothing logged, no object made, the caches empty.\<close>

definition initial_process :: "'w \<Rightarrow> 'w process" where
  "initial_process w = \<lparr>world = w, trace = [], next_id = 0, caches = (\<lambda>m. empty_lru)\<rparr>"

text \<open>The capacities as the specification lists them.\<close>

fun capacity :: "cached_method \<Rightarrow> nat" where
  "capacity GetCity = 1000"
| "capacity SearchCities = 5000"
| "capacity GetCitiesInState = 500"
| "capacity GetStates = 100"
| "capacity GetCountries = 1"

section \<open>Views for the statements\<close>

text \<open>The events a call added to the log.\<close>

definition new_events :: "'w process \<Rightarrow> 'w process \<Rightarrow> event list" where
  "new_events p p' = drop (length (trace p)) (trace p')"

text \<open>The calls of the recovery branch: the download, the delete, the import without download.\<close>

fun is_recovery :: "event \<Rightarrow> bool" where
  "is_recovery (E_download_city_data force) = True"
| "is_recovery E_delete_from_city_data = True"
| "is_recovery (E_import_from_csv csv_path batch_size download_if_missing) = (\<not> download_if_missing)"
| "is_recovery ev = False"

text \<open>
  The initial attempt of \<open>import_city_data\<close> raises: the row-count query does, or it
  reports no rows and the import does.
\<close>

definition initial_attempt_raises :: "'w collaborators \<Rightarrow> string option \<Rightarrow> int \<Rightarrow> 'w \<Rightarrow> bool" where
  "initial_attempt_raises env csv_path batch_size w =
     (case schema_get_table_info env w of
        (Inl e, w1) \<Rightarrow> True
      | (Inr info, w1) \<Rightarrow>
          \<not> row_count info > 0 \<and>
          (case importer_import_from_csv env csv_path batch_size True w1 of
             (Inl e, w2) \<Rightarrow> True
           | (Inr imported, w2) \<Rightarrow> False))"




text \<open>
  A cache in order: no key twice, no more entries than the capacity, and \<open>full\<close> set
  exactly when the capacity is reached.
\<close>

definition lru_ok :: "nat \<Rightarrow> lru \<Rightarrow> bool" where
  "lru_ok n c \<longleftrightarrow>
     distinct (map fst (entries c)) \<and> length (entries c) \<le> n \<and> (full c \<longleftrightarrow> n \<le> length (entries c))"

text \<open>
  The invariants of a run: every cache in order for its capacity, and the entries of
  every cache in the order of the last use of their keys.
\<close>

definition caches_ok :: "'w process \<Rightarrow> bool" where
  "caches_ok p \<longleftrightarrow> (\<forall>m. lru_ok (capacity m) (caches p m))"

definition recency_ok :: "cache_key list \<Rightarrow> lru \<Rightarrow> bool" where
  "recency_ok ks c \<longleftrightarrow> sorted_wrt (\<lambda>a b. last_use ks a < last_use ks b) (map fst (entries c))"

definition run_ok :: "'w process \<times> (cached_method \<times> cache_key) list \<Rightarrow> bool" where
  "run_ok s \<longleftrightarrow> caches_ok (fst s) \<and> (\<forall>m. recency_ok (uses m (snd s)) (caches (fst s) m))"

section \<open>An in-memory stand-in for the collaborators\<close>

text \<open>
  Modelled from the spec: collaborators to run the facade on concrete inputs, in place
  of the schema manager, the importer, the database manager and the repositories, which
  are not among the sources. A table of city records, CSV files by path, a data set on
  the network that may be out of reach, and one connection. The importer reads the
  given file, or the default file, which it downloads when it is missing and the call
  allows it. The general theorems do not depend on it.
\<close>

record store =
  rows :: "pyval list"
  files :: "(string \<times> pyval list) list"
  remote :: "pyval list option"
  connected :: bool
  has_schema :: bool

definition mem_download :: "bool \<Rightarrow> store \<Rightarrow> (exn + string) \<times> store" where
  "mem_download force w =
     (case remote w of
        None \<Rightarrow> (Inl (Exn ''ConnectionError''), w)
      | Some recs \<Rightarrow> (Inr ''/data/cities.csv'', w\<lparr>files := (''/data/cities.csv'', recs) # files w\<rparr>))"

definition mem_import :: "string option \<Rightarrow> int \<Rightarrow> bool \<Rightarrow> store \<Rightarrow> (exn + int) \<times> store" where
  "mem_import csv_path batch_size download_if_missing w =
     (let path = (case csv_path of Some q \<Rightarrow> q | None \<Rightarrow> ''/data/cities.csv'');
          w1 = (if csv_path = None \<and> download_if_missing \<and> map_of (files w) path = None
                then snd (mem_download False w) else w)
      in case map_of (files w1) path of
           None \<Rightarrow> (Inl (Exn ''FileNotFoundError''), w1)
         | Some recs \<Rightarrow> (Inr (int (length recs)), w1\<lparr>rows := rows w1 @ recs\<rparr>))"

definition field_of :: "string \<Rightarrow> pyval \<Rightarrow> pyval" where
  "field_of name r =
     (case r of
        PDict kvs \<Rightarrow> (case map_of kvs (PStr name) of Some v \<Rightarrow> v | None \<Rightarrow> PNone)
      | _ \<Rightarrow> PNone)"

definition mem_query :: "(pyval list \<Rightarrow> pyval) \<Rightarrow> store \<Rightarrow> (exn + pyval) \<times> store" where
  "mem_query q w =
     (if connected w then (Inr (q (rows w)), w) else (Inl (Exn ''OperationalError''), w))"

definition mem_env :: "string option \<Rightarrow> store collaborators" where
  "mem_env worker_id =
     \<lparr>os_environ = (\<lambda>name. if name = ''GUNICORN_WORKER_ID'' then worker_id else None),
      get_data_directory = (\<lambda>w. (Inr ''/data'', w)),
      new_components = (\<lambda>uri persistent_flag w. (Inr (), w\<lparr>connected := True\<rparr>)),
      schema_ensure_schema_exists = (\<lambda>w. (Inr (), w\<lparr>has_schema := True\<rparr>)),
      schema_get_table_info =
        (\<lambda>w. if has_schema w
              then (Inr \<lparr>columns = [''id'', ''name'', ''country'', ''state''],
                         row_count = int (length (rows w))\<rparr>, w)
              else (Inl (Exn ''OperationalError''), w)),
      importer_import_from_csv = mem_import,
      download_city_data = mem_download,
      db_delete_from_city_data = (\<lambda>w. (Inr (), w\<lparr>rows := []\<rparr>)),
      db_close = (\<lambda>w. (Inr (), w\<lparr>connected := False\<rparr>)),
      city_search =
        (\<lambda>query limit country user_lat user_lng user_country.
           mem_query (\<lambda>rs. PList (filter (\<lambda>r. field_of ''name'' r = query) rs))),
      city_get_by_id =
        (\<lambda>city_id. mem_query (\<lambda>rs. case find (\<lambda>r. field_of ''id'' r = city_id) rs of
                                        None \<Rightarrow> PNone | Some r \<Rightarrow> r)),
      geo_find_by_coordinates =
        (\<lambda>lat lng radius_km.
           mem_query (\<lambda>rs. PList (filter (\<lambda>r. field_of ''lat'' r = lat \<and> field_of ''lng'' r = lng) rs))),
      region_get_countries = mem_query (\<lambda>rs. PList (remdups (map (field_of ''country'') rs))),
      region_get_states =
        (\<lambda>country. mem_query (\<lambda>rs. PList (remdups (map (field_of ''state'')
                                         (filter (\<lambda>r. field_of ''country'' r = country) rs))))),
      region_get_cities_in_state =
        (\<lambda>state country.
           mem_query (\<lambda>rs. PList (filter (\<lambda>r. field_of ''state'' r = state \<and> field_of ''country'' r = country) rs)))\<rparr>"

section \<open>Concrete stores, facades and processes\<close>

text \<open>A city record, the store with nothing in it, and two facades.\<close>

definition city :: "nat \<Rightarrow> string \<Rightarrow> string \<Rightarrow> string \<Rightarrow> pyval" where
  "city i name country state =
     PDict [(PStr ''id'', PNum (of_nat i)), (PStr ''name'', PStr name),
            (PStr ''country'', PStr country), (PStr ''state'', PStr state)]"


definition a_facade :: facade where
  "a_facade = \<lparr>self_id = 0, db_manager = Some (), persistent = Some False\<rparr>"


text \<open>
  Stores: one with a row, one whose default file has no records, one with no file and no
  network, one without the schema, one with the default file and nothing else.
\<close>

definition populated_store :: store where
  "populated_store =
     \<lparr>rows = [city 1 ''Paris'' ''France'' ''Ile-de-France''], files = [], remote = None,
      connected = True, has_schema = True\<rparr>"

definition empty_file_store :: store where
  "empty_file_store =
     \<lparr>rows = [], files = [(''/data/cities.csv'', [])], remote = None,
      connected = True, has_schema = True\<rparr>"

definition offline_store :: store where
  "offline_store = \<lparr>rows = [], files = [], remote = None, connected = True, has_schema = True\<rparr>"







text \<open>
  A run that fills the cache of \<open>get_states\<close>: \<open>n\<close> calls with \<open>n\<close> different
  arguments, and the process and the log of uses it ends in.
\<close>

definition state_key :: "nat \<Rightarrow> cache_key" where
  "state_key i = [KVal (PObj 0), KVal (PNum (of_nat i))]"

definition fill_states :: "nat \<Rightarrow> api_call list" where
  "fill_states n = map (\<lambda>i. Cached GetStates a_facade [PNum (of_nat i)] []) [0..<n]"

definition filled_process :: "nat \<Rightarrow> store process" where
  "filled_process n =
     \<lparr>world = populated_store,
      trace = map (\<lambda>i. E_get_states (PNum (of_nat i))) [0..<n],
      next_id = 0,
      caches = (\<lambda>m. empty_lru)
        (GetStates := \<lparr>entries = map (\<lambda>i. (state_key i, PList [])) [0..<n],
                        full = (100 \<le> n), hits = 0, misses = n\<rparr>)\<rparr>"

definition filled_log :: "nat \<Rightarrow> (cached_method \<times> cache_key) list" where
  "filled_log n = map (\<lambda>i. (GetStates, state_key i)) [0..<n]"

section \<open>Ingestion: the store that already has rows\<close>

text \<open>
  C3. When the row count that \<open>get_table_info\<close> reports is greater than zero,
  \<open>import_city_data\<close> returns \<open>True\<close> for any source path and batch size, and the only
  collaborator it calls is \<open>get_table_info\<close>: no import, no download, no delete, and the
  outside state is the one the row-count query left. A second call on such a store
  returns \<open>True\<close> again and again calls nothing but \<open>get_table_info\<close>.
\<close>

theorem import_city_data_populated:
  assumes "schema_get_table_info env (world p) = (Inr info, w1)"
      and "row_count info > 0"
  shows "import_city_data env self csv_path batch_size p =
           (Inr True, p\<lparr>world := w1,
              trace := trace p @ [E_import_city_data csv_path batch_size, E_get_table_info]\<rparr>) \<and>
         (schema_get_table_info env w1 = (Inr info2, w2) \<and> row_count info2 > 0 \<longrightarrow>
            import_city_data env self csv_path2 batch_size2
              (p\<lparr>world := w1,
                 trace := trace p @ [E_import_city_data csv_path batch_size, E_get_table_info]\<rparr>) =
              (Inr True, p\<lparr>world := w2,
                 trace := trace p @ [E_import_city_data csv_path batch_size, E_get_table_info,
                                     E_import_city_data csv_path2 batch_size2, E_get_table_info]\<rparr>))"
  using assms
  by (simp add: import_city_data_def import_city_data_try_def get_table_info_def invoke_def)

theorem import_city_data_populated_witness:
  "schema_get_table_info (mem_env None) populated_store =
     (Inr \<lparr>columns = [''id'', ''name'', ''country'', ''state''], row_count = 1\<rparr>, populated_store) \<and>
   import_city_data (mem_env None) a_facade None 5000 (initial_process populated_store) =
     (Inr True, (initial_process populated_store)\<lparr>trace := [E_import_city_data None 5000, E_get_table_info]\<rparr>) \<and>
   import_city_data (mem_env None) a_facade (Some ''x.csv'') 10
     ((initial_process populated_store)\<lparr>trace := [E_import_city_data None 5000, E_get_table_info]\<rparr>) =
     (Inr True, (initial_process populated_store)\<lparr>trace :=
        [E_import_city_data None 5000, E_get_table_info, E_import_city_data (Some ''x.csv'') 10, E_get_table_info]\<rparr>)"
proof -
  let ?info = "\<lparr>columns = [''id'', ''name'', ''country'', ''state''], row_count = 1\<rparr>"
  have g: "schema_get_table_info (mem_env None) populated_store = (Inr ?info, populated_store)"
    by (simp add: mem_env_def populated_store_def)
  have h1: "schema_get_table_info (mem_env None) (world (initial_process populated_store)) =
              (Inr ?info, populated_store)"
    using g by (simp add: initial_process_def)
  have h2: "row_count ?info > 0" by simp
  show ?thesis
    using import_city_data_populated [OF h1 h2, where self = a_facade and csv_path = None
        and batch_size = 5000 and ?info2.0 = ?info and ?w2.0 = populated_store
        and ?csv_path2.0 = "Some ''x.csv''" and ?batch_size2.0 = 10] g
    by (simp add: initial_process_def)
qed

section \<open>Ingestion: failure and recovery\<close>



text \<open>
  C9. When the row-count query reports no rows and the first \<open>import_from_csv\<close> returns a
  count, \<open>import_city_data\<close> returns whether that count is greater than zero and calls
  nothing more: a count of zero gives \<open>False\<close> with no download, delete or second
  import. A call of the recovery branch is logged only when the initial attempt raised.
\<close>

theorem import_city_data_normal_return:
  "(schema_get_table_info env (world p) = (Inr info, w1) \<and> \<not> row_count info > 0 \<and>
    importer_import_from_csv env csv_path batch_size True w1 = (Inr imported, w2) \<longrightarrow>
    import_city_data env self csv_path batch_size p =
      (Inr (imported > 0),
       p\<lparr>world := w2,
         trace := trace p @ [E_import_city_data csv_path batch_size, E_get_table_info,
                             E_import_from_csv csv_path batch_size True]\<rparr>)) \<and>
   (list_ex is_recovery (new_events p (snd (import_city_data env self csv_path batch_size p))) \<longrightarrow>
    initial_attempt_raises env csv_path batch_size (world p))"
  by (auto simp add: import_city_data_def import_city_data_try_def import_city_data_retry_def
      get_table_info_def invoke_def new_events_def initial_attempt_raises_def
      split: prod.splits sum.splits if_splits)

theorem import_city_data_normal_return_witness:
  "schema_get_table_info (mem_env None) empty_file_store =
     (Inr \<lparr>columns = [''id'', ''name'', ''country'', ''state''], row_count = 0\<rparr>, empty_file_store) \<and>
   importer_import_from_csv (mem_env None) None 5000 True empty_file_store = (Inr 0, empty_file_store) \<and>
   import_city_data (mem_env None) a_facade None 5000 (initial_process empty_file_store) =
     (Inr False, (initial_process empty_file_store)\<lparr>trace :=
        [E_import_city_data None 5000, E_get_table_info, E_import_from_csv None 5000 True]\<rparr>) \<and>
   list_ex is_recovery (new_events (initial_process offline_store)
      (snd (import_city_data (mem_env None) a_facade None 5000 (initial_process offline_store)))) \<and>
   initial_attempt_raises (mem_env None) None 5000 offline_store"
proof -
  let ?info = "\<lparr>columns = [''id'', ''name'', ''country'', ''state''], row_count = 0\<rparr>"
  have g: "schema_get_table_info (mem_env None) empty_file_store = (Inr ?info, empty_file_store)"
    by (simp add: mem_env_def empty_file_store_def)
  have i: "importer_import_from_csv (mem_env None) None 5000 True empty_file_store = (Inr 0, empty_file_store)"
    by (simp add: mem_env_def mem_import_def empty_file_store_def)
  have r: "list_ex is_recovery (new_events (initial_process offline_store)
      (snd (import_city_data (mem_env None) a_facade None 5000 (initial_process offline_store))))"
    by (simp add: import_city_data_def import_city_data_try_def import_city_data_retry_def
      get_table_info_def invoke_def new_events_def mem_env_def mem_import_def mem_download_def
      offline_store_def initial_process_def)
  have a: "import_city_data (mem_env None) a_facade None 5000 (initial_process empty_file_store) =
     (Inr False, (initial_process empty_file_store)\<lparr>trace :=
        [E_import_city_data None 5000, E_get_table_info, E_import_from_csv None 5000 True]\<rparr>)"
    using import_city_data_normal_return [where env = "mem_env None" and p = "initial_process empty_file_store"
        and info = ?info and ?w1.0 = empty_file_store and csv_path = None and batch_size = 5000
        and imported = 0 and ?w2.0 = empty_file_store and self = a_facade] g i
    by (simp add: initial_process_def)
  have b: "initial_attempt_raises (mem_env None) None 5000 offline_store"
    using import_city_data_normal_return [where env = "mem_env None" and p = "initial_process offline_store"
        and csv_path = None and batch_size = 5000 and self = a_facade] r
    by (simp add: initial_process_def)
  show ?thesis using g i r a b by simp
qed



section \<open>Construction: who bootstraps\<close>






section \<open>Binding, delegation and the wrapper\<close>

lemma bind_positional_length:
  "bind_positional ps args = Inr (vs, rest) \<Longrightarrow> length vs + length rest = length ps"
  by (induction ps args arbitrary: vs rest rule: bind_positional.induct)
     (auto split: sum.splits)

lemma bind_keywords_length:
  "bind_keywords ps kwds = Inr ws \<Longrightarrow> length ws = length ps"
  by (induction ps kwds arbitrary: ws rule: bind_keywords.induct)
     (auto split: sum.splits option.splits)

lemma bind_arguments_length:
  assumes "bind_arguments ps args kwds = Inr vs"
  shows "length vs = length ps"
proof -
  from assms obtain a b ws where
    "bind_positional ps args = Inr (a, b)" "bind_keywords b kwds = Inr ws" "vs = a @ ws"
    by (auto simp add: bind_arguments_def split: sum.splits if_splits)
  then show ?thesis
    using bind_positional_length [of ps args a b] bind_keywords_length [of b kwds ws] by simp
qed


lemma body_of_caches:
  "caches (snd (body_of env m args kwds p)) = caches p"
  by (cases m)
     (auto simp add: body_of_def search_cities_body_def get_city_body_def get_countries_body_def
        get_states_body_def get_cities_in_state_body_def invoke_def
        split: sum.splits list.splits prod.splits)

lemma call_cached_capacity:
  "call_cached env m self args kwds p = cached_call m (capacity m) (body_of env m) self args kwds p"
  by (cases m)
     (simp_all add: call_cached_def body_of_def search_cities_def get_city_def get_countries_def
        get_states_def get_cities_in_state_def)

lemma capacity_pos: "0 < capacity m"
  by (cases m) simp_all

lemma cached_call_hit:
  assumes "0 < n" "key_of self args kwds = Inr k" "map_of (entries (caches p m)) k = Some v"
  shows "cached_call m n f self args kwds p =
           (Inr v, p\<lparr>caches := (caches p)(m := (caches p m)
              \<lparr>entries := filter (\<lambda>e. fst e \<noteq> k) (entries (caches p m)) @ [(k, v)],
               hits := hits (caches p m) + 1\<rparr>)\<rparr>)"
  using assms by (simp add: cached_call_def lru_cache_wrapper_def key_of_def)

lemma cached_call_miss:
  assumes "0 < n" "key_of self args kwds = Inr k" "map_of (entries (caches p m)) k = None"
      and "f (PObj (self_id self) # args) kwds p = (r, p1)"
  shows "cached_call m n f self args kwds p =
           (r, p1\<lparr>caches := (caches p1)(m :=
              (case r of
                 Inl e \<Rightarrow> (caches p m)\<lparr>misses := misses (caches p m) + 1\<rparr>
               | Inr v \<Rightarrow> lru_store n k v ((caches p m)\<lparr>misses := misses (caches p m) + 1\<rparr>)))\<rparr>)"
  using assms by (simp add: cached_call_def lru_cache_wrapper_def key_of_def split: sum.splits)

section \<open>Construction: the data set that cannot be loaded\<close>

lemma default_db_uri_caches:
  "default_db_uri env db_uri p = (r, p1) \<Longrightarrow> caches p1 = caches p"
  by (auto simp add: default_db_uri_def invoke_def split: option.splits prod.splits sum.splits)



section \<open>The radius search\<close>

lemma bind_arguments_self:
  "bind_arguments (q # ps) (s # args) kwds = Inr vs \<Longrightarrow> \<exists>ws. vs = s # ws"
  by (auto simp add: bind_arguments_def split: sum.splits if_splits)

lemma bind_coordinates:
  assumes "bind_arguments
             [(''self'', None), (''lat'', None), (''lng'', None), (''radius_km'', Some (PNum 10))]
             (s # args) kwds = Inr vs"
  shows "\<exists>lat lng radius_km. vs = [s, lat, lng, radius_km]"
proof -
  from assms have "length vs = 4" by (auto dest: bind_arguments_length)
  then obtain a b c d where "vs = [a, b, c, d]"
    by (auto simp add: length_Suc_conv numeral_eq_Suc)
  with bind_arguments_self [OF assms] show ?thesis by simp
qed

text \<open>
  C7. \<open>get_cities_by_coordinates\<close> is not memoized: every call whose arguments fit the
  parameters calls \<open>find_by_coordinates\<close> of the geographic repository with the bound
  latitude, longitude and radius and returns what it returns in the current state of
  the store; a second call with the same arguments calls the repository a second
  time. No cache is read or written.
\<close>

theorem get_cities_by_coordinates_not_cached:
  "(bind_arguments
      [(''self'', None), (''lat'', None), (''lng'', None), (''radius_km'', Some (PNum 10))]
      (PObj (self_id self) # args) kwds = Inr vs \<longrightarrow>
    (\<exists>lat lng radius_km.
       vs = [PObj (self_id self), lat, lng, radius_km] \<and>
       get_cities_by_coordinates env self args kwds p =
         (fst (geo_find_by_coordinates env lat lng radius_km (world p)),
          p\<lparr>world := snd (geo_find_by_coordinates env lat lng radius_km (world p)),
            trace := trace p @ [E_find_by_coordinates lat lng radius_km]\<rparr>) \<and>
       trace (snd (get_cities_by_coordinates env self args kwds
                (snd (get_cities_by_coordinates env self args kwds p)))) =
         trace p @ [E_find_by_coordinates lat lng radius_km, E_find_by_coordinates lat lng radius_km])) \<and>
   caches (snd (get_cities_by_coordinates env self args kwds p)) = caches p"
proof (intro conjI impI)
  assume b: "bind_arguments
      [(''self'', None), (''lat'', None), (''lng'', None), (''radius_km'', Some (PNum 10))]
      (PObj (self_id self) # args) kwds = Inr vs"
  then obtain lat lng radius_km where v: "vs = [PObj (self_id self), lat, lng, radius_km]"
    using bind_coordinates by blast
  have g: "get_cities_by_coordinates env self args kwds q =
         (fst (geo_find_by_coordinates env lat lng radius_km (world q)),
          q\<lparr>world := snd (geo_find_by_coordinates env lat lng radius_km (world q)),
            trace := trace q @ [E_find_by_coordinates lat lng radius_km]\<rparr>)" for q
    using b v by (simp add: get_cities_by_coordinates_def invoke_def split: prod.splits)
  show "\<exists>lat lng radius_km.
       vs = [PObj (self_id self), lat, lng, radius_km] \<and>
       get_cities_by_coordinates env self args kwds p =
         (fst (geo_find_by_coordinates env lat lng radius_km (world p)),
          p\<lparr>world := snd (geo_find_by_coordinates env lat lng radius_km (world p)),
            trace := trace p @ [E_find_by_coordinates lat lng radius_km]\<rparr>) \<and>
       trace (snd (get_cities_by_coordinates env self args kwds
                (snd (get_cities_by_coordinates env self args kwds p)))) =
         trace p @ [E_find_by_coordinates lat lng radius_km, E_find_by_coordinates lat lng radius_km]"
    using v g by simp
next
  show "caches (snd (get_cities_by_coordinates env self args kwds p)) = caches p"
    by (auto simp add: get_cities_by_coordinates_def invoke_def
        split: sum.splits list.splits prod.splits)
qed

theorem get_cities_by_coordinates_not_cached_witness:
  "bind_arguments
      [(''self'', None), (''lat'', None), (''lng'', None), (''radius_km'', Some (PNum 10))]
      (PObj (self_id a_facade) # [PNum 48]) [(''lng'', PNum 2)] = Inr [PObj 0, PNum 48, PNum 2, PNum 10] \<and>
   get_cities_by_coordinates (mem_env None) a_facade [PNum 48] [(''lng'', PNum 2)]
     (initial_process populated_store) =
     (Inr (PList []),
      (initial_process populated_store)\<lparr>trace := [E_find_by_coordinates (PNum 48) (PNum 2) (PNum 10)]\<rparr>) \<and>
   trace (snd (get_cities_by_coordinates (mem_env None) a_facade [PNum 48] [(''lng'', PNum 2)]
            (snd (get_cities_by_coordinates (mem_env None) a_facade [PNum 48] [(''lng'', PNum 2)]
                    (initial_process populated_store))))) =
     [E_find_by_coordinates (PNum 48) (PNum 2) (PNum 10),
      E_find_by_coordinates (PNum 48) (PNum 2) (PNum 10)]"
proof -
  let ?p = "initial_process populated_store"
  have b: "bind_arguments
      [(''self'', None), (''lat'', None), (''lng'', None), (''radius_km'', Some (PNum 10))]
      (PObj (self_id a_facade) # [PNum 48]) [(''lng'', PNum 2)] = Inr [PObj 0, PNum 48, PNum 2, PNum 10]"
    by (simp add: bind_arguments_def a_facade_def)
  have q: "geo_find_by_coordinates (mem_env None) (PNum 48) (PNum 2) (PNum 10) (world ?p) =
             (Inr (PList []), world ?p)"
    by (simp add: mem_env_def mem_query_def initial_process_def populated_store_def city_def field_of_def)
  from get_cities_by_coordinates_not_cached [where self = a_facade and args = "[PNum 48]"
        and kwds = "[(''lng'', PNum 2)]" and vs = "[PObj 0, PNum 48, PNum 2, PNum 10]"
        and env = "mem_env None" and p = ?p] b
  have "get_cities_by_coordinates (mem_env None) a_facade [PNum 48] [(''lng'', PNum 2)] ?p =
         (fst (geo_find_by_coordinates (mem_env None) (PNum 48) (PNum 2) (PNum 10) (world ?p)),
          ?p\<lparr>world := snd (geo_find_by_coordinates (mem_env None) (PNum 48) (PNum 2) (PNum 10) (world ?p)),
            trace := trace ?p @ [E_find_by_coordinates (PNum 48) (PNum 2) (PNum 10)]\<rparr>) \<and>
       trace (snd (get_cities_by_coordinates (mem_env None) a_facade [PNum 48] [(''lng'', PNum 2)]
                (snd (get_cities_by_coordinates (mem_env None) a_facade [PNum 48] [(''lng'', PNum 2)] ?p)))) =
         trace ?p @ [E_find_by_coordinates (PNum 48) (PNum 2) (PNum 10),
                     E_find_by_coordinates (PNum 48) (PNum 2) (PNum 10)]"
    by auto
  with b q show ?thesis by (auto simp add: initial_process_def)
qed

section \<open>Release of the connection\<close>



section \<open>Keys, and one call of a decorated method\<close>






lemma lru_store_ok:
  assumes "lru_ok n c" "0 < n" "k \<notin> fst ` set (entries c)"
  shows "lru_ok n (lru_store n k v c)"
proof (cases "full c")
  case True
  with assms have ne: "entries c \<noteq> []" by (auto simp add: lru_ok_def)
  then obtain x xs where e: "entries c = x # xs" by (cases "entries c") auto
  with assms True show ?thesis
    by (auto simp add: lru_ok_def lru_store_def)
next
  case False
  with assms show ?thesis
    by (auto simp add: lru_ok_def lru_store_def Let_def)
qed

lemma filter_key_length:
  "distinct (map fst es) \<Longrightarrow> map_of es k = Some v \<Longrightarrow>
   Suc (length (filter (\<lambda>e. fst e \<noteq> k) es)) = length es"
proof (induction es)
  case Nil
  then show ?case by simp
next
  case (Cons x xs)
  show ?case
  proof (cases "fst x = k")
    case True
    with Cons.prems have "k \<notin> fst ` set xs" by auto
    then have "filter (\<lambda>e. fst e \<noteq> k) xs = xs" by (auto simp add: filter_id_conv)
    with True show ?thesis by simp
  next
    case False
    with Cons show ?thesis by (cases x) auto
  qed
qed

lemma lru_hit_ok:
  assumes "lru_ok n c" "map_of (entries c) k = Some v"
  shows "lru_ok n (c\<lparr>entries := filter (\<lambda>e. fst e \<noteq> k) (entries c) @ [(k, v)], hits := h\<rparr>)"
proof -
  from assms have l: "Suc (length (filter (\<lambda>e. fst e \<noteq> k) (entries c))) = length (entries c)"
    by (auto simp add: lru_ok_def intro: filter_key_length)
  from assms have "distinct (map fst (filter (\<lambda>e. fst e \<noteq> k) (entries c)))"
    by (simp add: lru_ok_def distinct_map_filter)
  with assms l show ?thesis by (auto simp add: lru_ok_def)
qed

lemma call_cached_unhashable:
  assumes "key_of self args kwds = Inl e"
  shows "call_cached env m self args kwds p = (Inl e, p)"
  using assms capacity_pos [of m]
  by (simp add: call_cached_capacity cached_call_def lru_cache_wrapper_def key_of_def)

lemma call_cached_hit:
  assumes "key_of self args kwds = Inr k" "map_of (entries (caches p m)) k = Some v"
  shows "call_cached env m self args kwds p =
           (Inr v, p\<lparr>caches := (caches p)(m := (caches p m)
              \<lparr>entries := filter (\<lambda>e. fst e \<noteq> k) (entries (caches p m)) @ [(k, v)],
               hits := hits (caches p m) + 1\<rparr>)\<rparr>)"
  using cached_call_hit [where f = "body_of env m", OF capacity_pos assms]
  by (simp add: call_cached_capacity)

lemma call_cached_miss:
  assumes "key_of self args kwds = Inr k" "map_of (entries (caches p m)) k = None"
      and "body_of env m (PObj (self_id self) # args) kwds p = (r, q)"
  shows "call_cached env m self args kwds p =
           (r, q\<lparr>caches := (caches p)(m :=
              (case r of
                 Inl e \<Rightarrow> (caches p m)\<lparr>misses := misses (caches p m) + 1\<rparr>
               | Inr v \<Rightarrow> lru_store (capacity m) k v
                            ((caches p m)\<lparr>misses := misses (caches p m) + 1\<rparr>)))\<rparr>)"
proof -
  have "caches q = caches p"
    using body_of_caches [of env m "PObj (self_id self) # args" kwds p] assms(3) by simp
  then show ?thesis
    using cached_call_miss [where f = "body_of env m", OF capacity_pos assms]
    by (simp add: call_cached_capacity)
qed





section \<open>Cached reads\<close>



section \<open>The invariants of the caches\<close>

lemma last_use_append:
  "last_use (ks @ [x]) k = (if x = k then Suc (length ks) else last_use ks k)"
  by (simp add: last_use_def)

lemma last_use_le: "last_use ks k \<le> length ks"
proof -
  have "length (dropWhile (\<lambda>x. x \<noteq> k) (rev ks)) \<le> length (rev ks)"
    by (rule length_dropWhile_le)
  then show ?thesis by (simp add: last_use_def)
qed

lemma recency_after_use:
  assumes "sorted_wrt (\<lambda>a b. last_use ks a < last_use ks b) xs" "k \<notin> set xs"
  shows "sorted_wrt (\<lambda>a b. last_use (ks @ [k]) a < last_use (ks @ [k]) b) (xs @ [k])"
proof -
  have "\<forall>x \<in> set xs. last_use (ks @ [k]) x < last_use (ks @ [k]) k"
  proof
    fix x assume "x \<in> set xs"
    with assms have "x \<noteq> k" by auto
    then have "last_use (ks @ [k]) x = last_use ks x" by (simp add: last_use_append)
    with last_use_le [of ks x] show "last_use (ks @ [k]) x < last_use (ks @ [k]) k"
      by (simp add: last_use_append)
  qed
  moreover have "sorted_wrt (\<lambda>a b. last_use (ks @ [k]) a < last_use (ks @ [k]) b) xs"
  proof (rule sorted_wrt_mono_rel [OF _ assms(1)])
    fix a b assume "a \<in> set xs" "b \<in> set xs" "last_use ks a < last_use ks b"
    with assms(2) show "last_use (ks @ [k]) a < last_use (ks @ [k]) b"
      by (auto simp add: last_use_append)
  qed
  ultimately show ?thesis by (simp add: sorted_wrt_append)
qed

lemma import_city_data_caches:
  "caches (snd (import_city_data env self csv_path batch_size p)) = caches p"
  by (auto simp add: import_city_data_def import_city_data_try_def import_city_data_retry_def
      get_table_info_def invoke_def split: prod.splits sum.splits if_splits)

lemma import_city_data_cachesD:
  "import_city_data env self csv_path batch_size p = (r, q) \<Longrightarrow> caches q = caches p"
  using import_city_data_caches [of env self csv_path batch_size p] by simp

lemma init_bootstrap_cachesD:
  "init_bootstrap env self p = (r, q) \<Longrightarrow> caches q = caches p"
  by (auto simp add: init_bootstrap_def init_check_content_def get_table_info_def invoke_def
      split: prod.splits sum.splits if_splits dest!: import_city_data_cachesD)

lemma init_caches: "caches (snd (init env db_uri persistent_flag p)) = caches p"
proof -
  obtain r p1 where d: "default_db_uri env db_uri (p\<lparr>next_id := Suc (next_id p)\<rparr>) = (r, p1)"
    by (cases "default_db_uri env db_uri (p\<lparr>next_id := Suc (next_id p)\<rparr>)") auto
  from default_db_uri_caches [OF d] have "caches p1 = caches p" by simp
  with d show ?thesis
    by (auto simp add: init_def invoke_def Let_def split: prod.splits sum.splits
        dest!: init_bootstrap_cachesD)
qed

lemma get_cities_by_coordinates_caches:
  "caches (snd (get_cities_by_coordinates env self args kwds p)) = caches p"
  by (auto simp add: get_cities_by_coordinates_def invoke_def
      split: sum.splits list.splits prod.splits)

lemma get_table_info_caches: "caches (snd (get_table_info env self p)) = caches p"
  by (simp add: get_table_info_def invoke_def split: prod.splits)

lemma close_caches: "caches (snd (close env self p)) = caches p"
  by (simp add: close_def invoke_def split: prod.splits)

lemma call_cached_cases:
  assumes "call_cached env m self args kwds p = (r, p1)"
  shows "(\<forall>m'. m' \<noteq> m \<longrightarrow> caches p1 m' = caches p m') \<and>
    ((\<exists>e. r = Inl e \<and> entries (caches p1 m) = entries (caches p m) \<and>
          full (caches p1 m) = full (caches p m)) \<or>
     (\<exists>k v. key_of self args kwds = Inr k \<and> r = Inr v \<and>
            map_of (entries (caches p m)) k = Some v \<and>
            entries (caches p1 m) = filter (\<lambda>e. fst e \<noteq> k) (entries (caches p m)) @ [(k, v)] \<and>
            full (caches p1 m) = full (caches p m)) \<or>
     (\<exists>k v. key_of self args kwds = Inr k \<and> r = Inr v \<and>
            k \<notin> fst ` set (entries (caches p m)) \<and>
            caches p1 m = lru_store (capacity m) k v
              ((caches p m)\<lparr>misses := misses (caches p m) + 1\<rparr>)))"
proof (cases "key_of self args kwds")
  case (Inl e)
  with assms show ?thesis by (auto simp add: call_cached_unhashable)
next
  case (Inr k)
  show ?thesis
  proof (cases "map_of (entries (caches p m)) k")
    case (Some v)
    from assms call_cached_hit [OF Inr Some, of env] Inr Some show ?thesis
      by auto
  next
    case None
    obtain r' q where b: "body_of env m (PObj (self_id self) # args) kwds p = (r', q)"
      by (cases "body_of env m (PObj (self_id self) # args) kwds p") auto
    from None have nk: "k \<notin> fst ` set (entries (caches p m))" by (simp add: map_of_eq_None_iff)
    from assms call_cached_miss [OF Inr None b] Inr nk show ?thesis
      by (cases r') auto
  qed
qed

lemma lru_ok_cong:
  "entries c' = entries c \<Longrightarrow> full c' = full c \<Longrightarrow> lru_ok n c' = lru_ok n c"
  by (simp add: lru_ok_def)

lemma lru_ok_after_hit:
  assumes "lru_ok n c" "map_of (entries c) k = Some v"
      and "entries c' = filter (\<lambda>e. fst e \<noteq> k) (entries c) @ [(k, v)]" "full c' = full c"
  shows "lru_ok n c'"
proof -
  have "lru_ok n c' = lru_ok n (c\<lparr>entries := filter (\<lambda>e. fst e \<noteq> k) (entries c) @ [(k, v)], hits := 0\<rparr>)"
    using assms(3,4) by (simp add: lru_ok_def)
  with lru_hit_ok [OF assms(1,2), of 0] show ?thesis by simp
qed

lemma uses_append:
  "uses m (ulog @ [(m', k)]) = (if m' = m then uses m ulog @ [k] else uses m ulog)"
  by (simp add: uses_def)

lemma step_ok:
  assumes "run_ok (p, ulog)"
  shows "run_ok (step env c p, ulog @ use_of env c p)"
proof (cases c)
  case (Init db_uri persistent_flag)
  with assms show ?thesis
    by (simp add: run_ok_def caches_ok_def step_def use_of_def init_caches)
next
  case (Import_city_data self csv_path batch_size)
  with assms show ?thesis
    by (simp add: run_ok_def caches_ok_def step_def use_of_def import_city_data_caches)
next
  case (Get_cities_by_coordinates self args kwds)
  with assms show ?thesis
    by (simp add: run_ok_def caches_ok_def step_def use_of_def get_cities_by_coordinates_caches)
next
  case (Get_table_info self)
  with assms show ?thesis
    by (simp add: run_ok_def caches_ok_def step_def use_of_def get_table_info_caches)
next
  case (Close self)
  with assms show ?thesis
    by (simp add: run_ok_def caches_ok_def step_def use_of_def close_caches)
next
  case (Cached m self args kwds)
  obtain r p1 where cc: "call_cached env m self args kwds p = (r, p1)"
    by (cases "call_cached env m self args kwds p") auto
  from assms have ok: "lru_ok (capacity m') (caches p m')"
      and rec: "recency_ok (uses m' ulog) (caches p m')" for m'
    by (simp_all add: run_ok_def caches_ok_def)
  from call_cached_cases [OF cc]
  have other: "caches p1 m' = caches p m'" if "m' \<noteq> m" for m'
    using that by simp
  from Cached cc have st: "step env c p = p1" by (simp add: step_def)
  from call_cached_cases [OF cc]
  consider
    (raised) e where "r = Inl e" "entries (caches p1 m) = entries (caches p m)"
      "full (caches p1 m) = full (caches p m)"
  | (hit) k v where "key_of self args kwds = Inr k" "r = Inr v"
      "map_of (entries (caches p m)) k = Some v"
      "entries (caches p1 m) = filter (\<lambda>e. fst e \<noteq> k) (entries (caches p m)) @ [(k, v)]"
      "full (caches p1 m) = full (caches p m)"
  | (stored) k v where "key_of self args kwds = Inr k" "r = Inr v"
      "k \<notin> fst ` set (entries (caches p m))"
      "caches p1 m = lru_store (capacity m) k v ((caches p m)\<lparr>misses := misses (caches p m) + 1\<rparr>)"
    by blast
  then show ?thesis
  proof cases
    case raised
    with Cached cc have u: "use_of env c p = []" by (simp add: use_of_def)
    have "lru_ok (capacity m') (caches p1 m')" for m'
      using ok [of m'] other [of m'] raised lru_ok_cong [of "caches p1 m" "caches p m" "capacity m"]
      by (cases "m' = m") auto
    moreover have "recency_ok (uses m' ulog) (caches p1 m')" for m'
      using rec [of m'] other [of m'] raised by (cases "m' = m") (auto simp add: recency_ok_def)
    ultimately show ?thesis using st u by (simp add: run_ok_def caches_ok_def)
  next
    case hit
    with Cached cc have u: "use_of env c p = [(m, k)]" by (simp add: use_of_def)
    have "lru_ok (capacity m') (caches p1 m')" for m'
      using ok [of m'] other [of m'] lru_ok_after_hit [OF ok [of m] hit(3,4,5)]
      by (cases "m' = m") auto
    moreover have "recency_ok (uses m' (ulog @ [(m, k)])) (caches p1 m')" for m'
    proof (cases "m' = m")
      case True
      let ?xs = "map fst (filter (\<lambda>e. fst e \<noteq> k) (entries (caches p m)))"
      have x: "?xs = filter (\<lambda>a. a \<noteq> k) (map fst (entries (caches p m)))"
        by (simp add: filter_map comp_def)
      from rec [of m] have "sorted_wrt (\<lambda>a b. last_use (uses m ulog) a < last_use (uses m ulog) b) ?xs"
        unfolding x recency_ok_def by (rule sorted_wrt_filter)
      moreover have "k \<notin> set ?xs" by auto
      ultimately have "sorted_wrt (\<lambda>a b. last_use (uses m ulog @ [k]) a < last_use (uses m ulog @ [k]) b)
                          (?xs @ [k])"
        by (rule recency_after_use)
      with True hit show ?thesis by (simp add: recency_ok_def uses_append)
    next
      case False
      with rec [of m'] other [of m'] show ?thesis by (simp add: uses_append)
    qed
    ultimately show ?thesis using st u by (simp add: run_ok_def caches_ok_def)
  next
    case stored
    with Cached cc have u: "use_of env c p = [(m, k)]" by (simp add: use_of_def)
    let ?c1 = "(caches p m)\<lparr>misses := misses (caches p m) + 1\<rparr>"
    have ok1: "lru_ok (capacity m) ?c1" using ok [of m] by (simp add: lru_ok_def)
    have nk1: "k \<notin> fst ` set (entries ?c1)" using stored by simp
    have "lru_ok (capacity m') (caches p1 m')" for m'
      using ok [of m'] other [of m'] lru_store_ok [OF ok1 capacity_pos nk1, of v] stored
      by (cases "m' = m") auto
    moreover have "recency_ok (uses m' (ulog @ [(m, k)])) (caches p1 m')" for m'
    proof (cases "m' = m")
      case True
      let ?es = "if full (caches p m) then tl (entries (caches p m)) else entries (caches p m)"
      have e: "entries (caches p1 m) = ?es @ [(k, v)]"
        using stored by (simp add: lru_store_def Let_def)
      have "sorted_wrt (\<lambda>a b. last_use (uses m ulog) a < last_use (uses m ulog) b) (map fst ?es)"
        using rec [of m] by (cases "entries (caches p m)") (auto simp add: recency_ok_def)
      moreover have "k \<notin> set (map fst ?es)"
        using stored by (cases "entries (caches p m)") auto
      ultimately have "sorted_wrt (\<lambda>a b. last_use (uses m ulog @ [k]) a < last_use (uses m ulog @ [k]) b)
                          (map fst ?es @ [k])"
        by (rule recency_after_use)
      with True e show ?thesis by (simp add: recency_ok_def uses_append)
    next
      case False
      with rec [of m'] other [of m'] show ?thesis by (simp add: uses_append)
    qed
    ultimately show ?thesis using st u by (simp add: run_ok_def caches_ok_def)
  qed
qed

lemma run_ok_run: "run_ok s \<Longrightarrow> run_ok (run env calls s)"
proof (induction calls arbitrary: s)
  case Nil
  then show ?case by simp
next
  case (Cons c cs)
  from Cons.prems have "run_ok (fst s, snd s)" by simp
  then have "run_ok (step env c (fst s), snd s @ use_of env c (fst s))" by (rule step_ok)
  then show ?case using Cons.IH by simp
qed

lemma run_ok_initial: "run_ok (initial_process w, [])"
  by (simp add: run_ok_def caches_ok_def recency_ok_def lru_ok_def initial_process_def
      empty_lru_def capacity_pos uses_def)

text \<open>
  C6. After any sequence of calls of the interface, from the start of the process, no
  cache holds more entries than its capacity: 1000 for \<open>get_city\<close>, 5000 for
  \<open>search_cities\<close>, 500 for \<open>get_cities_in_state\<close>, 100 for \<open>get_states\<close>, 1 for
  \<open>get_countries\<close>. When a call stores a new key in a cache that is at capacity, exactly
  one key leaves, and every other cached key was last used after it.
\<close>

theorem caches_bounded_lru:
  assumes "run env calls (initial_process w, []) = (p, ulog)"
  shows "(\<forall>m. length (entries (caches p m)) \<le> capacity m) \<and>
         (key_of self args kwds = Inr k \<and> k \<notin> cached_keys p m \<and>
          length (entries (caches p m)) = capacity m \<and>
          call_cached env m self args kwds p = (Inr v, p') \<longrightarrow>
            (\<exists>e. e \<in> cached_keys p m \<and>
                 cached_keys p' m = insert k (cached_keys p m - {e}) \<and>
                 (\<forall>k' \<in> cached_keys p m. k' \<noteq> e \<longrightarrow>
                    last_use (uses m ulog) e < last_use (uses m ulog) k')))"
proof (intro conjI impI)
  have "run_ok (run env calls (initial_process w, []))"
    using run_ok_initial by (rule run_ok_run)
  with assms have r: "run_ok (p, ulog)" by simp
  then have ok: "lru_ok (capacity m') (caches p m')" for m'
    by (simp add: run_ok_def caches_ok_def)
  then show "\<forall>m. length (entries (caches p m)) \<le> capacity m"
    by (simp add: lru_ok_def)
  assume a: "key_of self args kwds = Inr k \<and> k \<notin> cached_keys p m \<and>
          length (entries (caches p m)) = capacity m \<and>
          call_cached env m self args kwds p = (Inr v, p')"
  let ?es = "entries (caches p m)"
  from a capacity_pos [of m] obtain x xs where es: "?es = x # xs"
    by (cases ?es) auto
  from a have nk: "map_of ?es k = None"
    by (simp add: cached_keys_def map_of_eq_None_iff)
  from a ok [of m] have f: "full (caches p m)" by (simp add: lru_ok_def)
  from a have cc: "call_cached env m self args kwds p = (Inr v, p')" by simp
  from call_cached_cases [OF cc] a nk
  have "caches p' m = lru_store (capacity m) k v ((caches p m)\<lparr>misses := misses (caches p m) + 1\<rparr>)"
    by auto
  with a f es have e': "entries (caches p' m) = xs @ [(k, v)]"
    by (simp add: lru_store_def cached_keys_def)
  from ok [of m] es have d: "fst x \<notin> fst ` set xs" by (auto simp add: lru_ok_def)
  from r have "sorted_wrt (\<lambda>a b. last_use (uses m ulog) a < last_use (uses m ulog) b) (map fst ?es)"
    by (simp add: run_ok_def recency_ok_def)
  with es have l: "\<forall>k' \<in> fst ` set xs. last_use (uses m ulog) (fst x) < last_use (uses m ulog) k'"
    by auto
  have "fst x \<in> cached_keys p m" using es by (simp add: cached_keys_def)
  moreover have "cached_keys p' m = insert k (cached_keys p m - {fst x})"
    using es e' d by (auto simp add: cached_keys_def)
  moreover have "\<forall>k' \<in> cached_keys p m. k' \<noteq> fst x \<longrightarrow>
                    last_use (uses m ulog) (fst x) < last_use (uses m ulog) k'"
    using es l by (auto simp add: cached_keys_def)
  ultimately show "\<exists>e. e \<in> cached_keys p m \<and>
                 cached_keys p' m = insert k (cached_keys p m - {e}) \<and>
                 (\<forall>k' \<in> cached_keys p m. k' \<noteq> e \<longrightarrow>
                    last_use (uses m ulog) e < last_use (uses m ulog) k')"
    by blast
qed

lemma run_append: "run env (xs @ ys) s = run env ys (run env xs s)"
  by (induction xs arbitrary: s) simp_all

lemma state_key_inj: "state_key i = state_key j \<longleftrightarrow> i = j"
  by (simp add: state_key_def)

lemma filled_keys: "cached_keys (filled_process n) GetStates = state_key ` {0..<n}"
  by (auto simp add: cached_keys_def filled_process_def image_image)

lemma filled_call:
  assumes "n < 100"
  shows "call_cached (mem_env None) GetStates a_facade [PNum (of_nat n)] [] (filled_process n) =
           (Inr (PList []), filled_process (Suc n))"
proof -
  let ?p = "filled_process n"
  have k: "key_of a_facade [PNum (of_nat n)] [] = Inr (state_key n)"
    by (simp add: key_of_def make_key_def a_facade_def state_key_def)
  have "state_key n \<notin> cached_keys ?p GetStates"
    by (simp add: filled_keys state_key_inj image_iff)
  then have m: "map_of (entries (caches ?p GetStates)) (state_key n) = None"
    by (simp add: cached_keys_def map_of_eq_None_iff)
  have q: "region_get_states (mem_env None) (PNum (of_nat n)) populated_store =
             (Inr (PList []), populated_store)"
    by (simp add: mem_env_def mem_query_def populated_store_def city_def field_of_def)
  have b: "body_of (mem_env None) GetStates (PObj (self_id a_facade) # [PNum (of_nat n)]) [] ?p =
             (Inr (PList []), ?p\<lparr>trace := trace ?p @ [E_get_states (PNum (of_nat n))]\<rparr>)"
    using q by (simp add: body_of_def get_states_body_def bind_arguments_def invoke_def
        filled_process_def)
  from assms call_cached_miss [OF k m b] show ?thesis
    by (simp add: filled_process_def lru_store_def Let_def image_iff state_key_inj)
qed

lemma filled_run:
  "n \<le> 100 \<Longrightarrow>
   run (mem_env None) (fill_states n) (initial_process populated_store, []) =
     (filled_process n, filled_log n)"
proof (induction n)
  case 0
  show ?case
    by (simp add: fill_states_def filled_process_def filled_log_def initial_process_def
        empty_lru_def fun_eq_iff)
next
  case (Suc n)
  then have n: "n < 100" and ih: "run (mem_env None) (fill_states n) (initial_process populated_store, []) =
     (filled_process n, filled_log n)"
    by simp_all
  have f: "fill_states (Suc n) = fill_states n @ [Cached GetStates a_facade [PNum (of_nat n)] []]"
    by (simp add: fill_states_def)
  have k: "key_of a_facade [PNum (of_nat n)] [] = Inr (state_key n)"
    by (simp add: key_of_def make_key_def a_facade_def state_key_def)
  show ?case
    using ih filled_call [OF n] k
    by (simp add: f run_append step_def use_of_def filled_log_def)
qed

lemma filled_call_result:
  "fst (call_cached (mem_env None) GetStates a_facade [PNum (of_nat n)] [] (filled_process n)) =
     Inr (PList [])"
proof -
  let ?p = "filled_process n"
  have k: "key_of a_facade [PNum (of_nat n)] [] = Inr (state_key n)"
    by (simp add: key_of_def make_key_def a_facade_def state_key_def)
  have "state_key n \<notin> cached_keys ?p GetStates"
    by (simp add: filled_keys state_key_inj image_iff)
  then have m: "map_of (entries (caches ?p GetStates)) (state_key n) = None"
    by (simp add: cached_keys_def map_of_eq_None_iff)
  have q: "region_get_states (mem_env None) (PNum (of_nat n)) populated_store =
             (Inr (PList []), populated_store)"
    by (simp add: mem_env_def mem_query_def populated_store_def city_def field_of_def)
  have b: "body_of (mem_env None) GetStates (PObj (self_id a_facade) # [PNum (of_nat n)]) [] ?p =
             (Inr (PList []), ?p\<lparr>trace := trace ?p @ [E_get_states (PNum (of_nat n))]\<rparr>)"
    using q by (simp add: body_of_def get_states_body_def bind_arguments_def invoke_def
        filled_process_def)
  from call_cached_miss [OF k m b] show ?thesis by simp
qed

theorem caches_bounded_lru_witness:
  "run (mem_env None) (fill_states 100) (initial_process populated_store, []) =
     (filled_process 100, filled_log 100) \<and>
   (\<forall>m. length (entries (caches (filled_process 100) m)) \<le> capacity m) \<and>
   key_of a_facade [PNum 100] [] = Inr (state_key 100) \<and>
   state_key 100 \<notin> cached_keys (filled_process 100) GetStates \<and>
   length (entries (caches (filled_process 100) GetStates)) = capacity GetStates \<and>
   (\<exists>e. e \<in> cached_keys (filled_process 100) GetStates \<and>
        cached_keys (snd (call_cached (mem_env None) GetStates a_facade [PNum 100] []
                            (filled_process 100))) GetStates =
          insert (state_key 100) (cached_keys (filled_process 100) GetStates - {e}) \<and>
        (\<forall>k' \<in> cached_keys (filled_process 100) GetStates. k' \<noteq> e \<longrightarrow>
           last_use (uses GetStates (filled_log 100)) e < last_use (uses GetStates (filled_log 100)) k'))"
proof -
  let ?p = "filled_process 100"
  have r: "run (mem_env None) (fill_states 100) (initial_process populated_store, []) =
     (?p, filled_log 100)"
    by (rule filled_run) simp
  have k: "key_of a_facade [PNum 100] [] = Inr (state_key 100)"
    by (simp add: key_of_def make_key_def a_facade_def state_key_def)
  have n: "state_key 100 \<notin> cached_keys ?p GetStates"
    by (simp add: filled_keys state_key_inj image_iff)
  have l: "length (entries (caches ?p GetStates)) = capacity GetStates"
    by (simp add: filled_process_def)
  have "fst (call_cached (mem_env None) GetStates a_facade [PNum 100] [] ?p) = Inr (PList [])"
    using filled_call_result [of 100] by simp
  then have c: "call_cached (mem_env None) GetStates a_facade [PNum 100] [] ?p =
      (Inr (PList []), snd (call_cached (mem_env None) GetStates a_facade [PNum 100] [] ?p))"
    by (simp add: prod_eq_iff)
  have pre: "key_of a_facade [PNum 100] [] = Inr (state_key 100) \<and>
      state_key 100 \<notin> cached_keys ?p GetStates \<and>
      length (entries (caches ?p GetStates)) = capacity GetStates \<and>
      call_cached (mem_env None) GetStates a_facade [PNum 100] [] ?p =
        (Inr (PList []), snd (call_cached (mem_env None) GetStates a_facade [PNum 100] [] ?p))"
    using k n l c by blast
  note t = caches_bounded_lru [OF r, where self = a_facade and args = "[PNum 100]" and kwds = "[]"
      and k = "state_key 100" and m = GetStates and v = "PList []"
      and p' = "snd (call_cached (mem_env None) GetStates a_facade [PNum 100] [] ?p)"]
  from t have b: "\<forall>m. length (entries (caches ?p m)) \<le> capacity m" by (rule conjunct1)
  from t [THEN conjunct2, rule_format, OF pre] r k n l b show ?thesis by blast
qed

end
